theory Spec2Isabelle
  imports Main
begin

text \<open>
  The program \<open>dnuz\<close> is one file, \<^verbatim>\<open>cmd/root.go\<close>: it downloads a ZIP archive,
  and writes each entry under an output directory, after decoding entry names that
  the archive marks as not UTF-8 and re-encoding the resulting paths. This theory
  embeds that file (its section \<open>The program\<close>) and, before it, as much of the Go
  packages it calls as its behaviour depends on: \<^verbatim>\<open>unicode/utf8\<close>,
  \<^verbatim>\<open>unicode\<close>, \<^verbatim>\<open>strings\<close>, \<^verbatim>\<open>path/filepath\<close> (Unix), \<^verbatim>\<open>os\<close>,
  \<^verbatim>\<open>archive/zip\<close>, and \<^verbatim>\<open>transform\<close>, \<^verbatim>\<open>encoding\<close> and
  \<^verbatim>\<open>encoding/charmap\<close> of golang.org/x/text. The packages are not part of the
  program's sources; each is described as its documentation and code describe it.
\<close>

section \<open>Go strings, runes and UTF-8\<close>

text \<open>
  A Go \<^verbatim>\<open>string\<close> (and a \<^verbatim>\<open>[]byte\<close>) is a sequence of bytes; a byte is
  modelled as a natural number below 256 and a rune as the number of its code point.
  ASCII literals of the source are written \<open>ascii ''...''\<close>.
\<close>

type_synonym byte = nat
type_synonym gostring = "byte list"
type_synonym rune = nat

abbreviation ascii :: "string \<Rightarrow> gostring" where
  "ascii s \<equiv> map of_char s"

definition RuneError :: rune where
  "RuneError = 0xFFFD"

definition RuneSelf :: nat where
  "RuneSelf = 0x80"

text \<open>
  \<^verbatim>\<open>utf8.EncodeRune\<close>: one to four bytes; a surrogate or a value above
  U+10FFFF is written as U+FFFD.
\<close>

definition EncodeRune :: "rune \<Rightarrow> gostring" where
  "EncodeRune r =
     (if r \<le> 0x7F then [r]
      else if r \<le> 0x7FF then [0xC0 + r div 64, 0x80 + r mod 64]
      else if r > 0x10FFFF \<or> (0xD800 \<le> r \<and> r \<le> 0xDFFF) then [0xEF, 0xBF, 0xBD]
      else if r \<le> 0xFFFF then [0xE0 + r div 4096, 0x80 + (r div 64) mod 64, 0x80 + r mod 64]
      else [0xF0 + r div 262144, 0x80 + (r div 4096) mod 64,
            0x80 + (r div 64) mod 64, 0x80 + r mod 64])"

text \<open>
  The \<^verbatim>\<open>first\<close> and \<^verbatim>\<open>acceptRanges\<close> tables of package utf8: for a
  leading byte, the length of the sequence it starts (0 when the byte cannot start
  one) and the range the second byte must lie in.
\<close>

definition seq_len :: "byte \<Rightarrow> nat" where
  "seq_len b =
     (if b < 0x80 then 1
      else if b < 0xC2 then 0
      else if b < 0xE0 then 2
      else if b < 0xF0 then 3
      else if b < 0xF5 then 4
      else 0)"

definition accept_lo :: "byte \<Rightarrow> byte" where
  "accept_lo b = (if b = 0xE0 then 0xA0 else if b = 0xF0 then 0x90 else 0x80)"

definition accept_hi :: "byte \<Rightarrow> byte" where
  "accept_hi b = (if b = 0xED then 0x9F else if b = 0xF4 then 0x8F else 0xBF)"

definition cont :: "byte \<Rightarrow> bool" where
  "cont b = (0x80 \<le> b \<and> b \<le> 0xBF)"

text \<open>
  \<^verbatim>\<open>utf8.DecodeRune\<close>: the rune at the head of the bytes and its width; an
  invalid or incomplete sequence yields \<open>(RuneError, 1)\<close>, the empty input
  \<open>(RuneError, 0)\<close>.
\<close>

fun DecodeRune :: "gostring \<Rightarrow> rune \<times> nat" where
  "DecodeRune [] = (RuneError, 0)"
| "DecodeRune (p0 # p) =
     (if p0 < 0x80 then (p0, 1)
      else if seq_len p0 = 0 then (RuneError, 1)
      else if length p + 1 < seq_len p0 then (RuneError, 1)
      else
        let b1 = p ! 0 in
        if b1 < accept_lo p0 \<or> accept_hi p0 < b1 then (RuneError, 1)
        else if seq_len p0 \<le> 2 then ((p0 mod 32) * 64 + b1 mod 64, 2)
        else
          let b2 = p ! 1 in
          if \<not> cont b2 then (RuneError, 1)
          else if seq_len p0 \<le> 3 then
            ((p0 mod 16) * 4096 + (b1 mod 64) * 64 + b2 mod 64, 3)
          else
            let b3 = p ! 2 in
            if \<not> cont b3 then (RuneError, 1)
            else ((p0 mod 8) * 262144 + (b1 mod 64) * 4096 + (b2 mod 64) * 64
                  + b3 mod 64, 4))"

text \<open>
  \<^verbatim>\<open>utf8.FullRune\<close>: do the bytes begin with a full encoding of a rune? An
  invalid encoding counts as a full rune, since it decodes to a width-1 error rune.
\<close>

fun FullRune :: "gostring \<Rightarrow> bool" where
  "FullRune [] = False"
| "FullRune (p0 # p) =
     (let n = length p + 1 in
      if n \<ge> seq_len p0 then True
      else if n > 1 \<and> (p ! 0 < accept_lo p0 \<or> accept_hi p0 < p ! 0) then True
      else if n > 2 \<and> \<not> cont (p ! 1) then True
      else False)"

text \<open>
  The runes a \<^verbatim>\<open>for _, c := range s\<close> loop visits: every invalid byte is one
  \<open>RuneError\<close>.
\<close>

fun range_runes :: "gostring \<Rightarrow> rune list" where
  "range_runes [] = []"
| "range_runes (p0 # p) =
     (case DecodeRune (p0 # p) of (r, width) \<Rightarrow> r # range_runes (drop (width - 1) p))"

definition utf8 :: "rune list \<Rightarrow> gostring" where
  "utf8 rs = concat (map EncodeRune rs)"

section \<open>Errors\<close>

text \<open>
  Every error value the program can meet. \<open>ErrorsNew msg\<close> is
  \<^verbatim>\<open>errors.New(msg)\<close>; the others are the library's error values, named as
  the library names them.
\<close>

datatype error =
    ErrorsNew gostring
  | ErrShortDst
  | ErrShortSrc
  | RepertoireError byte
  | FetchError
  | ZipError
  | ENOENT gostring
  | ENOTDIR gostring
  | EISDIR gostring
  | EEXIST gostring
  | ReadError

section \<open>Package charmap: single-byte code pages\<close>

text \<open>
  Modelled from the spec: package charmap of golang.org/x/text, whose code pages the
  program selects, is not among the repository's sources. The spec calls a code
  page \<open>a fixed mapping of single bytes to characters\<close> with a transform in each
  direction (\<open>decode: legacy bytes to Unicode; encode: Unicode to target bytes\<close>)
  that takes bytes in and gives bytes out and fails when the output overflows its
  buffer. The tables below are the published ones of code page 866 and Windows-1251;
  the two loops follow the package's \<^verbatim>\<open>Transform\<close> methods. Byte 98 (hex) of
  Windows-1251, which the code page leaves unassigned, is given the control U+0098
  that the index the package is generated from assigns to it; nothing below depends
  on that entry.
\<close>

text \<open>
  A \<^verbatim>\<open>charmap.Charmap\<close>: \<open>decode\<close> holds, for each of the 256 byte values, the
  code point it stands for (the library stores that code point's UTF-8 bytes, which
  \<open>EncodeRune\<close> gives); \<open>low\<close> is the first byte value that is not fixed by ASCII and
  \<open>replacement\<close> the byte the library reports with an unencodable rune.
\<close>

record Charmap =
  asciiSuperset :: bool
  low :: nat
  replacement :: byte
  decode :: "rune list"

definition cp866_high :: "rune list" where
  "cp866_high =
     [0x0410, 0x0411, 0x0412, 0x0413, 0x0414, 0x0415, 0x0416, 0x0417,
      0x0418, 0x0419, 0x041A, 0x041B, 0x041C, 0x041D, 0x041E, 0x041F,
      0x0420, 0x0421, 0x0422, 0x0423, 0x0424, 0x0425, 0x0426, 0x0427,
      0x0428, 0x0429, 0x042A, 0x042B, 0x042C, 0x042D, 0x042E, 0x042F,
      0x0430, 0x0431, 0x0432, 0x0433, 0x0434, 0x0435, 0x0436, 0x0437,
      0x0438, 0x0439, 0x043A, 0x043B, 0x043C, 0x043D, 0x043E, 0x043F,
      0x2591, 0x2592, 0x2593, 0x2502, 0x2524, 0x2561, 0x2562, 0x2556,
      0x2555, 0x2563, 0x2551, 0x2557, 0x255D, 0x255C, 0x255B, 0x2510,
      0x2514, 0x2534, 0x252C, 0x251C, 0x2500, 0x253C, 0x255E, 0x255F,
      0x255A, 0x2554, 0x2569, 0x2566, 0x2560, 0x2550, 0x256C, 0x2567,
      0x2568, 0x2564, 0x2565, 0x2559, 0x2558, 0x2552, 0x2553, 0x256B,
      0x256A, 0x2518, 0x250C, 0x2588, 0x2584, 0x258C, 0x2590, 0x2580,
      0x0440, 0x0441, 0x0442, 0x0443, 0x0444, 0x0445, 0x0446, 0x0447,
      0x0448, 0x0449, 0x044A, 0x044B, 0x044C, 0x044D, 0x044E, 0x044F,
      0x0401, 0x0451, 0x0404, 0x0454, 0x0407, 0x0457, 0x040E, 0x045E,
      0x00B0, 0x2219, 0x00B7, 0x221A, 0x2116, 0x00A4, 0x25A0, 0x00A0]"

definition cp1251_high :: "rune list" where
  "cp1251_high =
     [0x0402, 0x0403, 0x201A, 0x0453, 0x201E, 0x2026, 0x2020, 0x2021,
      0x20AC, 0x2030, 0x0409, 0x2039, 0x040A, 0x040C, 0x040B, 0x040F,
      0x0452, 0x2018, 0x2019, 0x201C, 0x201D, 0x2022, 0x2013, 0x2014,
      0x0098, 0x2122, 0x0459, 0x203A, 0x045A, 0x045C, 0x045B, 0x045F,
      0x00A0, 0x040E, 0x045E, 0x0408, 0x00A4, 0x0490, 0x00A6, 0x00A7,
      0x0401, 0x00A9, 0x0404, 0x00AB, 0x00AC, 0x00AD, 0x00AE, 0x0407,
      0x00B0, 0x00B1, 0x0406, 0x0456, 0x0491, 0x00B5, 0x00B6, 0x00B7,
      0x0451, 0x2116, 0x0454, 0x00BB, 0x0458, 0x0405, 0x0455, 0x0457,
      0x0410, 0x0411, 0x0412, 0x0413, 0x0414, 0x0415, 0x0416, 0x0417,
      0x0418, 0x0419, 0x041A, 0x041B, 0x041C, 0x041D, 0x041E, 0x041F,
      0x0420, 0x0421, 0x0422, 0x0423, 0x0424, 0x0425, 0x0426, 0x0427,
      0x0428, 0x0429, 0x042A, 0x042B, 0x042C, 0x042D, 0x042E, 0x042F,
      0x0430, 0x0431, 0x0432, 0x0433, 0x0434, 0x0435, 0x0436, 0x0437,
      0x0438, 0x0439, 0x043A, 0x043B, 0x043C, 0x043D, 0x043E, 0x043F,
      0x0440, 0x0441, 0x0442, 0x0443, 0x0444, 0x0445, 0x0446, 0x0447,
      0x0448, 0x0449, 0x044A, 0x044B, 0x044C, 0x044D, 0x044E, 0x044F]"

definition codePage866 :: Charmap where
  "codePage866 =
     \<lparr>asciiSuperset = True, low = 0x80, replacement = 0x1A,
      decode = [0..<0x80] @ cp866_high\<rparr>"

definition windows1251 :: Charmap where
  "windows1251 =
     \<lparr>asciiSuperset = True, low = 0x80, replacement = 0x1A,
      decode = [0..<0x80] @ cp1251_high\<rparr>"

text \<open>
  \<^verbatim>\<open>charmapDecoder.Transform(dst, src, atEOF)\<close>. The destination is given by its
  length \<open>cap\<close>; the result is \<open>(dst[:nDst], nSrc, err)\<close>. The loop stops with
  \<open>ErrShortDst\<close> at the first byte whose UTF-8 form no longer fits.
\<close>

fun decoder_loop :: "Charmap \<Rightarrow> nat \<Rightarrow> gostring \<Rightarrow> gostring \<Rightarrow> nat
    \<Rightarrow> gostring \<times> nat \<times> error option" where
  "decoder_loop m cap [] out nSrc = (out, nSrc, None)"
| "decoder_loop m cap (c # src) out nSrc =
     (if asciiSuperset m \<and> c < RuneSelf then
        (if length out \<ge> cap then (out, nSrc, Some ErrShortDst)
         else decoder_loop m cap src (out @ [c]) (nSrc + 1))
      else
        let d = EncodeRune (decode m ! c) in
        if length out + length d > cap then (out, nSrc, Some ErrShortDst)
        else decoder_loop m cap src (out @ d) (nSrc + 1))"

text \<open>
  The encoder's search of the \<open>encode\<close> table (sorted by rune, searched from index
  \<open>low\<close>): the byte at or above \<open>low\<close> that stands for rune \<open>r\<close>, if there is one.
\<close>

definition encode_lookup :: "Charmap \<Rightarrow> rune \<Rightarrow> byte option" where
  "encode_lookup m r = find (\<lambda>b. decode m ! b = r) [low m..<0x100]"

text \<open>
  \<^verbatim>\<open>charmapEncoder.Transform(dst, src, atEOF)\<close>: ASCII bytes are copied when the
  code page is an ASCII superset; any other rune is decoded from UTF-8 and looked up.
  Invalid UTF-8 and a rune outside the code page are errors.
\<close>

fun encoder_loop :: "Charmap \<Rightarrow> nat \<Rightarrow> bool \<Rightarrow> gostring \<Rightarrow> gostring \<Rightarrow> nat
    \<Rightarrow> gostring \<times> nat \<times> error option" where
  "encoder_loop m cap atEOF [] out nSrc = (out, nSrc, None)"
| "encoder_loop m cap atEOF (c # src) out nSrc =
     (if length out \<ge> cap then (out, nSrc, Some ErrShortDst)
      else if c < RuneSelf \<and> asciiSuperset m then
        encoder_loop m cap atEOF src (out @ [c]) (nSrc + 1)
      else
        case (if c < RuneSelf then (c, 1) else DecodeRune (c # src)) of (r, width) \<Rightarrow>
          if c \<ge> RuneSelf \<and> width = 1 then
            (if \<not> atEOF \<and> \<not> FullRune (c # src) then (out, nSrc, Some ErrShortSrc)
             else (out, nSrc, Some (RepertoireError (replacement m))))
          else
            (case encode_lookup m r of
               None \<Rightarrow> (out, nSrc, Some (RepertoireError (replacement m)))
             | Some b \<Rightarrow>
                 encoder_loop m cap atEOF (drop (width - 1) src) (out @ [b]) (nSrc + width)))"

section \<open>Packages transform and encoding\<close>

text \<open>
  The transformers the program can hold: \<^verbatim>\<open>transform.Nop\<close> (what the decoder and
  the encoder of \<^verbatim>\<open>encoding.Nop\<close> wrap) and the two directions of a code page.
\<close>

datatype Transformer =
    TransformNop
  | CharmapDecoder Charmap
  | CharmapEncoder Charmap

text \<open>
  \<^verbatim>\<open>t.Transform(dst, src, atEOF)\<close> with \<open>len(dst) = cap\<close>. \<^verbatim>\<open>transform.Nop\<close>
  copies as much of \<open>src\<close> as fits and reports \<open>ErrShortDst\<close> when it is not all.
\<close>

fun Transform :: "Transformer \<Rightarrow> nat \<Rightarrow> gostring \<Rightarrow> bool \<Rightarrow> gostring \<times> nat \<times> error option" where
  "Transform TransformNop cap src atEOF =
     (let n = min cap (length src) in
      (take n src, n, if n < length src then Some ErrShortDst else None))"
| "Transform (CharmapDecoder m) cap src atEOF = decoder_loop m cap src [] 0"
| "Transform (CharmapEncoder m) cap src atEOF = encoder_loop m cap atEOF src [] 0"

datatype Encoding = EncodingNop | EncodingCharmap Charmap

fun NewDecoder :: "Encoding \<Rightarrow> Transformer" where
  "NewDecoder EncodingNop = TransformNop"
| "NewDecoder (EncodingCharmap m) = CharmapDecoder m"

fun NewEncoder :: "Encoding \<Rightarrow> Transformer" where
  "NewEncoder EncodingNop = TransformNop"
| "NewEncoder (EncodingCharmap m) = CharmapEncoder m"

section \<open>Packages unicode and strings\<close>

text \<open>
  \<^verbatim>\<open>unicode.ToLower\<close>, on the part of the case table this program can be seen
  to reach: Basic Latin, Latin-1, the Cyrillic letters of the two code pages, and
  the two code points outside ASCII whose lower case is an ASCII letter (U+0130 and
  U+212A). Every other code point is returned as it is, which is what the package
  does for every other character of code page 866 and Windows-1251.
\<close>

definition unicode_ToLower :: "rune \<Rightarrow> rune" where
  "unicode_ToLower r =
     (if 0x41 \<le> r \<and> r \<le> 0x5A then r + 0x20
      else if 0xC0 \<le> r \<and> r \<le> 0xDE \<and> r \<noteq> 0xD7 then r + 0x20
      else if r = 0x130 then 0x69
      else if 0x400 \<le> r \<and> r \<le> 0x40F then r + 0x50
      else if 0x410 \<le> r \<and> r \<le> 0x42F then r + 0x20
      else if r = 0x490 then 0x491
      else if r = 0x212A then 0x6B
      else r)"

text \<open>
  \<^verbatim>\<open>strings.Map(mapping, s)\<close> for a mapping that drops no rune: the runes of
  \<open>s\<close>, each mapped and written back as UTF-8. An invalid byte is read as U+FFFD and
  written as such, as current versions of the package do; no property below rests
  on what becomes of invalid bytes.
\<close>

definition Map_runes :: "(rune \<Rightarrow> rune) \<Rightarrow> gostring \<Rightarrow> gostring" where
  "Map_runes mapping s = concat (map (\<lambda>c. EncodeRune (mapping c)) (range_runes s))"

text \<open>
  \<^verbatim>\<open>strings.ToLower\<close>: an ASCII-only string is lower-cased byte by byte,
  any other string rune by rune.
\<close>

definition ToLower :: "gostring \<Rightarrow> gostring" where
  "ToLower s =
     (if list_all (\<lambda>c. c < RuneSelf) s
      then map (\<lambda>c. if 0x41 \<le> c \<and> c \<le> 0x5A then c + 0x20 else c) s
      else Map_runes unicode_ToLower s)"

fun strings_Join :: "gostring list \<Rightarrow> gostring \<Rightarrow> gostring" where
  "strings_Join [] sep = []"
| "strings_Join [e] sep = e"
| "strings_Join (e # es) sep = e @ sep @ strings_Join es sep"

section \<open>Package filepath (Unix)\<close>

definition Separator :: byte where
  "Separator = 0x2F"

definition Dot :: byte where
  "Dot = 0x2E"

text \<open>
  \<^verbatim>\<open>filepath.Clean\<close>. \<open>out\<close> is the output written so far (the library's
  \<open>lazybuf\<close> up to \<open>w\<close>), \<open>dotdot\<close> the index where a \<open>..\<close> must stop.
  \<open>backtrack\<close> is the inner loop that drops the last element of the output.
\<close>

fun backtrack :: "gostring \<Rightarrow> nat \<Rightarrow> nat \<Rightarrow> nat" where
  "backtrack out dotdot 0 = 0"
| "backtrack out dotdot (Suc w) =
     (if Suc w > dotdot \<and> out ! (Suc w) \<noteq> Separator then backtrack out dotdot w
      else Suc w)"

function clean_loop :: "bool \<Rightarrow> gostring \<Rightarrow> gostring \<Rightarrow> nat \<Rightarrow> gostring" where
  "clean_loop rooted [] out dotdot = out"
| "clean_loop rooted (c # p) out dotdot =
     (if c = Separator then clean_loop rooted p out dotdot
      else if c = Dot \<and> (p = [] \<or> hd p = Separator) then clean_loop rooted p out dotdot
      else if c = Dot \<and> p \<noteq> [] \<and> hd p = Dot \<and> (tl p = [] \<or> hd (tl p) = Separator) then
        (if length out > dotdot then
           clean_loop rooted (tl p) (take (backtrack out dotdot (length out - 1)) out) dotdot
         else if \<not> rooted then
           clean_loop rooted (tl p)
             ((if length out > 0 then out @ [Separator] else out) @ [Dot, Dot])
             (length ((if length out > 0 then out @ [Separator] else out) @ [Dot, Dot]))
         else clean_loop rooted (tl p) out dotdot)
      else
        clean_loop rooted (dropWhile (\<lambda>x. x \<noteq> Separator) p)
          ((if rooted \<and> length out \<noteq> 1 \<or> \<not> rooted \<and> length out \<noteq> 0
            then out @ [Separator] else out)
           @ c # takeWhile (\<lambda>x. x \<noteq> Separator) p)
          dotdot)"
  by pat_completeness auto
termination
  by (relation "measure (\<lambda>(rooted, p, out, dotdot). length p)")
     (auto simp: less_Suc_eq_le length_dropWhile_le)

definition Clean :: "gostring \<Rightarrow> gostring" where
  "Clean path =
     (if path = [] then [Dot]
      else
        let rooted = (hd path = Separator);
            out = (if rooted then clean_loop True (tl path) [Separator] 1
                   else clean_loop False path [] 0)
        in if out = [] then [Dot] else out)"

text \<open>\<^verbatim>\<open>filepath.Join\<close>: leading empty elements are ignored, the rest is joined and cleaned.\<close>

fun Join :: "gostring list \<Rightarrow> gostring" where
  "Join [] = []"
| "Join (e # es) = (if e \<noteq> [] then Clean (strings_Join (e # es) [Separator]) else Join es)"

text \<open>\<^verbatim>\<open>filepath.Dir\<close>: all but the last element of the path, cleaned.\<close>

definition Dir :: "gostring \<Rightarrow> gostring" where
  "Dir path = Clean (rev (dropWhile (\<lambda>c. c \<noteq> Separator) (rev path)))"

section \<open>The file system\<close>

text \<open>
  The part of the operating system the program touches. A path names at most one
  node; paths are compared as the byte strings the program passes (it passes cleaned
  paths), the root and the working directory always exist, and there are no symbolic
  links, permissions or quotas: the only failures are those of the tree's shape.
  A file holds its content and its mode bits.
\<close>

datatype node = Directory | File gostring nat

type_synonym filesystem = "gostring \<Rightarrow> node option"

definition Stat :: "filesystem \<Rightarrow> gostring \<Rightarrow> node option" where
  "Stat fs path = (if path = [Separator] \<or> path = [Dot] then Some Directory else fs path)"

text \<open>\<^verbatim>\<open>os.Mkdir\<close>: the path must be new and its parent an existing directory.\<close>

definition Mkdir :: "filesystem \<Rightarrow> gostring \<Rightarrow> error + filesystem" where
  "Mkdir fs path =
     (if path = [] then Inl (ENOENT path)
      else case Stat fs path of
        Some n \<Rightarrow> Inl (EEXIST path)
      | None \<Rightarrow>
          (case Stat fs (Dir path) of
             None \<Rightarrow> Inl (ENOENT path)
           | Some (File c m) \<Rightarrow> Inl (ENOTDIR path)
           | Some Directory \<Rightarrow> Inr (fs(path \<mapsto> Directory))))"

text \<open>
  \<^verbatim>\<open>os.MkdirAll\<close>. \<open>elem_start path\<close> is the library's index \<open>j\<close>: the start of
  the last element of the path, trailing separators skipped.
\<close>

definition elem_start :: "gostring \<Rightarrow> nat" where
  "elem_start path =
     length (dropWhile (\<lambda>c. c \<noteq> Separator) (dropWhile (\<lambda>c. c = Separator) (rev path)))"

definition mkdir_last :: "filesystem \<Rightarrow> gostring \<Rightarrow> error + filesystem" where
  "mkdir_last fs path =
     (case Mkdir fs path of
        Inr fs' \<Rightarrow> Inr fs'
      | Inl err \<Rightarrow> (case Stat fs path of Some Directory \<Rightarrow> Inr fs | _ \<Rightarrow> Inl err))"

function MkdirAll :: "filesystem \<Rightarrow> gostring \<Rightarrow> error + filesystem" where
  "MkdirAll fs path =
     (case Stat fs path of
        Some Directory \<Rightarrow> Inr fs
      | Some (File c m) \<Rightarrow> Inl (ENOTDIR path)
      | None \<Rightarrow>
          if elem_start path > 1 then
            (case MkdirAll fs (take (elem_start path - 1) path) of
               Inl err \<Rightarrow> Inl err
             | Inr fs' \<Rightarrow> mkdir_last fs' path)
          else mkdir_last fs path)"
  by pat_completeness auto
termination
proof (relation "measure (\<lambda>(fs, path). length path)")
  show "wf (measure (\<lambda>(fs, path). length path))" by simp
next
  fix fs :: filesystem and path :: gostring
  assume "1 < elem_start path"
  moreover have "elem_start path \<le> length path"
    unfolding elem_start_def
    by (metis length_dropWhile_le le_trans length_rev)
  ultimately show "((fs, take (elem_start path - 1) path), (fs, path))
      \<in> measure (\<lambda>(fs, path). length path)"
    by simp
qed

declare MkdirAll.simps [simp del]

text \<open>
  \<^verbatim>\<open>os.OpenFile(path, O_WRONLY|O_CREATE|O_TRUNC, mode)\<close>: an existing file is
  truncated and keeps its mode, a new one is created in an existing directory.
\<close>

definition OpenFile :: "filesystem \<Rightarrow> gostring \<Rightarrow> nat \<Rightarrow> error + filesystem" where
  "OpenFile fs path mode =
     (case Stat fs path of
        Some Directory \<Rightarrow> Inl (EISDIR path)
      | Some (File c m) \<Rightarrow> Inr (fs(path \<mapsto> File [] m))
      | None \<Rightarrow>
          if path = [] then Inl (ENOENT path)
          else (case Stat fs (Dir path) of
                  None \<Rightarrow> Inl (ENOENT path)
                | Some (File c m) \<Rightarrow> Inl (ENOTDIR path)
                | Some Directory \<Rightarrow> Inr (fs(path \<mapsto> File [] mode))))"

text \<open>Writing to an open file appends to its content.\<close>

definition Write :: "filesystem \<Rightarrow> gostring \<Rightarrow> gostring \<Rightarrow> filesystem" where
  "Write fs path bytes =
     (case fs path of
        Some (File c m) \<Rightarrow> fs(path \<mapsto> File (c @ bytes) m)
      | _ \<Rightarrow> fs)"

section \<open>Package archive/zip\<close>

text \<open>
  A \<^verbatim>\<open>zip.File\<close> of the archive's directory: its name as stored, the
  \<open>NonUTF8\<close> flag, whether \<open>FileInfo().IsDir()\<close> holds, \<open>Mode()\<close>, and what opening
  and reading it gives: \<open>OpenErr\<close> is the error of \<open>Open()\<close> if it fails,
  \<open>Content\<close> the bytes the stream delivers and \<open>ReadErr\<close> the error it ends with,
  if any (a checksum mismatch, say).
\<close>

record zip_File =
  Name :: gostring
  NonUTF8 :: bool
  IsDir :: bool
  Mode :: nat
  OpenErr :: "error option"
  Content :: gostring
  ReadErr :: "error option"

section \<open>The program: cmd/root.go\<close>

subsection \<open>Encoding selection\<close>

text \<open>
  \<^verbatim>\<open>getEncoding\<close>, \<^verbatim>\<open>getDecoder\<close> and \<^verbatim>\<open>getEncoder\<close>. A Go interface value
  that may be \<open>nil\<close> is an option; the pair \<open>(nil, err)\<close> is \<open>Inl err\<close>.
\<close>

definition getEncoding :: "gostring \<Rightarrow> error + Encoding option" where
  "getEncoding encName =
     (if encName \<noteq> [] then
        (let l = ToLower encName in
         if l = ascii ''866'' then Inr (Some (EncodingCharmap codePage866))
         else if l = ascii ''cp866'' then Inr (Some (EncodingCharmap codePage866))
         else if l = ascii ''1251'' then Inr (Some (EncodingCharmap windows1251))
         else if l = ascii ''windows-1251'' then Inr (Some (EncodingCharmap windows1251))
         else Inl (ErrorsNew (ascii ''Unsupported encoding name'' @ [0x22] @ encName @ [0x22])))
      else Inr (Some EncodingNop))"

definition getDecoder :: "gostring \<Rightarrow> error + Transformer option" where
  "getDecoder encName =
     (case getEncoding encName of
        Inl err \<Rightarrow> Inl err
      | Inr None \<Rightarrow> Inr None
      | Inr (Some e) \<Rightarrow> Inr (Some (NewDecoder e)))"

definition getEncoder :: "gostring \<Rightarrow> error + Transformer option" where
  "getEncoder encName =
     (case getEncoding encName of
        Inl err \<Rightarrow> Inl err
      | Inr None \<Rightarrow> Inr None
      | Inr (Some e) \<Rightarrow> Inr (Some (NewEncoder e)))"

text \<open>
  The package variables the flags fill, and \<^verbatim>\<open>RootCmd.Args\<close>, which checks the
  URL and sets the variables \<open>decoder\<close> and \<open>encoder\<close>.
\<close>

record config =
  srcUrl :: gostring
  nonUtf8EncName :: gostring
  outEncName :: gostring
  outPath :: gostring

definition Args :: "config \<Rightarrow> error + (Transformer option \<times> Transformer option)" where
  "Args cfg =
     (if srcUrl cfg = [] then Inl (ErrorsNew (ascii ''requires at least url''))
      else case getDecoder (nonUtf8EncName cfg) of
        Inl err \<Rightarrow> Inl err
      | Inr decoder \<Rightarrow>
          (case getEncoder (outEncName cfg) of
             Inl err \<Rightarrow> Inl err
           | Inr encoder \<Rightarrow> Inr (decoder, encoder)))"

subsection \<open>Resolving an entry's path (lines 100 to 120)\<close>

text \<open>
  \<open>resolve_fname\<close> is \<open>fname\<close> after line 111 and \<open>resolve_fpath\<close> is \<open>fpath\<close> after
  line 120; \<open>Inl err\<close> is \<^verbatim>\<open>panic(err)\<close>. Each transform writes into a buffer of
  twice the length of its input.
\<close>

definition resolve_fname :: "Transformer option \<Rightarrow> zip_File \<Rightarrow> error + gostring" where
  "resolve_fname decoder f =
     (let fname = Name f in
      if NonUTF8 f then
        (case decoder of
           None \<Rightarrow> Inr fname
         | Some dec \<Rightarrow>
             (case Transform dec (length fname * 2) fname False of
                (newFName, nSrc, Some err) \<Rightarrow> Inl err
              | (newFName, nSrc, None) \<Rightarrow> Inr newFName))
      else Inr fname)"

definition encode_fpath :: "Transformer option \<Rightarrow> gostring \<Rightarrow> error + gostring" where
  "encode_fpath encoder fpath =
     (case encoder of
        None \<Rightarrow> Inr fpath
      | Some enc \<Rightarrow>
          (case Transform enc (length fpath * 2) fpath False of
             (newFPath, nSrc, Some err) \<Rightarrow> Inl err
           | (newFPath, nSrc, None) \<Rightarrow> Inr newFPath))"

definition resolve_fpath ::
    "Transformer option \<Rightarrow> Transformer option \<Rightarrow> gostring \<Rightarrow> zip_File \<Rightarrow> error + gostring" where
  "resolve_fpath decoder encoder out f =
     (case resolve_fname decoder f of
        Inl err \<Rightarrow> Inl err
      | Inr fname \<Rightarrow> encode_fpath encoder (ToLower (Join [out, fname])))"

subsection \<open>The extraction closure (lines 82 to 152)\<close>

text \<open>
  What the closure works on: the disk, the archive streams that are open (by the
  index of their entry), the output files that are open (by path), and the calls the
  closure has deferred so far (\<^verbatim>\<open>defer rc.Close()\<close>, newest first).
\<close>

record state =
  disk :: filesystem
  open_streams :: "nat list"
  open_handles :: "gostring list"
  deferred :: "nat list"

text \<open>
  How one pass through the loop body ends: it falls through to the next entry, it
  returns \<open>filenames, err\<close>, or it panics.
\<close>

datatype step = Next "gostring list" | Return "gostring list" error | Panic error

definition extract_entry ::
    "Transformer option \<Rightarrow> Transformer option \<Rightarrow> gostring \<Rightarrow> nat \<Rightarrow> zip_File
     \<Rightarrow> gostring list \<Rightarrow> state \<Rightarrow> step \<times> state" where
  "extract_entry decoder encoder out i f filenames s =
     (case OpenErr f of
        Some err \<Rightarrow> (Return filenames err, s)
      | None \<Rightarrow>
          let s1 = s\<lparr>open_streams := i # open_streams s, deferred := i # deferred s\<rparr> in
          (case resolve_fpath decoder encoder out f of
            Inl err \<Rightarrow> (Panic err, s1)
          | Inr fpath \<Rightarrow>
              let filenames' = filenames @ [fpath] in
              if IsDir f then
                (case MkdirAll (disk s1) fpath of
                   Inl err \<Rightarrow> (Next filenames', s1)
                 | Inr fs \<Rightarrow> (Next filenames', s1\<lparr>disk := fs\<rparr>))
              else
                (case MkdirAll (disk s1) (Dir fpath) of
                   Inl err \<Rightarrow> (Return filenames' err, s1)
                 | Inr fs \<Rightarrow>
                     (case OpenFile fs fpath (Mode f) of
                        Inl err \<Rightarrow> (Return filenames' err, s1\<lparr>disk := fs\<rparr>)
                      | Inr fs' \<Rightarrow>
                          (let s2 = s1\<lparr>disk := fs', open_handles := fpath # open_handles s1\<rparr>;
                               s3 = s2\<lparr>disk := Write (disk s2) fpath (Content f)\<rparr>;
                               s4 = s3\<lparr>open_handles := remove1 fpath (open_handles s3)\<rparr>
                           in (case ReadErr f of
                                 Some err \<Rightarrow> (Return filenames' err, s4)
                               | None \<Rightarrow> (Next filenames', s4)))))))"

text \<open>How the closure ends: with its two results, or by a panic.\<close>

datatype outcome = Returned "gostring list" "error option" | Panicked error

fun extract_loop ::
    "Transformer option \<Rightarrow> Transformer option \<Rightarrow> gostring \<Rightarrow> zip_File list \<Rightarrow> nat
     \<Rightarrow> gostring list \<Rightarrow> state \<Rightarrow> outcome \<times> state" where
  "extract_loop decoder encoder out [] i filenames s = (Returned filenames None, s)"
| "extract_loop decoder encoder out (f # r) i filenames s =
     (case extract_entry decoder encoder out i f filenames s of
        (Next filenames', s') \<Rightarrow> extract_loop decoder encoder out r (i + 1) filenames' s'
      | (Return filenames' err, s') \<Rightarrow> (Returned filenames' (Some err), s')
      | (Panic err, s') \<Rightarrow> (Panicked err, s'))"

text \<open>
  Leaving the closure, by return or by panic, runs the deferred calls, newest first:
  each closes its stream.
\<close>

fun run_deferred :: "state \<Rightarrow> state" where
  "run_deferred s =
     s\<lparr>open_streams := foldl (\<lambda>os i. remove1 i os) (open_streams s) (deferred s),
       deferred := []\<rparr>"

text \<open>
  The closure. \<open>NewReader\<close> stands for \<^verbatim>\<open>zip.NewReader\<close>: the archive's entries
  in stored order, or the error it reports for bytes that are not an archive.
\<close>

definition unzip ::
    "(gostring \<Rightarrow> error + zip_File list) \<Rightarrow> Transformer option \<Rightarrow> Transformer option
     \<Rightarrow> gostring \<Rightarrow> gostring \<Rightarrow> state \<Rightarrow> outcome \<times> state" where
  "unzip NewReader decoder encoder out d s =
     (case NewReader d of
        Inl err \<Rightarrow> (Returned [] (Some err), s)
      | Inr r \<Rightarrow>
          (case extract_loop decoder encoder out r 0 [] (s\<lparr>deferred := []\<rparr>) of
             (res, s') \<Rightarrow> (res, run_deferred s')))"

subsection \<open>The command\<close>

text \<open>
  How the process ends: the list of paths is printed, \<^verbatim>\<open>log.Fatal\<close> prints an error
  and exits with status 1, the argument check fails, or a panic ends the process.
\<close>

datatype exit = Unzipped "gostring list" | Fatal error | Usage error | Crash error

text \<open>
  \<^verbatim>\<open>RootCmd.Run\<close>. \<open>fetch\<close> stands for \<^verbatim>\<open>http.Get\<close> followed by
  \<^verbatim>\<open>ioutil.ReadAll\<close>: the body of the response, or the error of either.
\<close>

definition Run ::
    "(gostring \<Rightarrow> error + gostring) \<Rightarrow> (gostring \<Rightarrow> error + zip_File list) \<Rightarrow> config
     \<Rightarrow> Transformer option \<Rightarrow> Transformer option \<Rightarrow> state \<Rightarrow> exit \<times> state" where
  "Run fetch NewReader cfg decoder encoder s =
     (case fetch (srcUrl cfg) of
        Inl err \<Rightarrow> (Fatal err, s)
      | Inr d \<Rightarrow>
          (case unzip NewReader decoder encoder (outPath cfg) d s of
             (Returned files (Some err), s') \<Rightarrow> (Fatal err, s')
           | (Returned files None, s') \<Rightarrow> (Unzipped files, s')
           | (Panicked err, s') \<Rightarrow> (Crash err, s')))"

text \<open>\<^verbatim>\<open>Execute\<close>: the argument check, then the command.\<close>

definition Execute ::
    "(gostring \<Rightarrow> error + gostring) \<Rightarrow> (gostring \<Rightarrow> error + zip_File list) \<Rightarrow> config
     \<Rightarrow> state \<Rightarrow> exit \<times> state" where
  "Execute fetch NewReader cfg s =
     (case Args cfg of
        Inl err \<Rightarrow> (Usage err, s)
      | Inr (decoder, encoder) \<Rightarrow> Run fetch NewReader cfg decoder encoder s)"

section \<open>Notions used to state the properties\<close>

text \<open>
  \<open>case_variant key name\<close>: \<open>name\<close> is \<open>key\<close> up to the case of its ASCII letters,
  that is, each byte of \<open>name\<close> is the byte of \<open>key\<close> at its place or the capital
  letter of it.
\<close>

definition case_variant :: "gostring \<Rightarrow> gostring \<Rightarrow> bool" where
  "case_variant key name =
     list_all2 (\<lambda>c k. c = k \<or> (0x41 \<le> c \<and> c \<le> 0x5A \<and> c + 0x20 = k)) name key"


text \<open>
  A disk is well formed when every node of it lies in a directory: the parent path
  of whatever exists is an existing directory.
\<close>

definition wf_disk :: "filesystem \<Rightarrow> bool" where
  "wf_disk fs = (\<forall>p n. Stat fs p = Some n \<longrightarrow> Stat fs (Dir p) = Some Directory)"

text \<open>
  What the round trip needs of a code page: it is an ASCII superset searched from
  byte 80 (hex), its table has 256 entries of which the first 128 are the ASCII code
  points themselves, and every entry lies below the surrogates.
\<close>

definition ascii_table :: "Charmap \<Rightarrow> bool" where
  "ascii_table m =
     (asciiSuperset m \<and> low m = 0x80 \<and> length (decode m) = 0x100 \<and>
      take 0x80 (decode m) = [0..<0x80] \<and> list_all (\<lambda>r. r < 0xD800) (decode m))"

text \<open>
  A Unicode string, given by its code points, is representable in a code page when
  each of its code points is in the page's table.
\<close>

definition representable :: "Charmap \<Rightarrow> rune list \<Rightarrow> bool" where
  "representable m rs = list_all (\<lambda>r. r \<in> set (decode m)) rs"

section \<open>Sample inputs\<close>

text \<open>
  A stand-in for \<^verbatim>\<open>zip.NewReader\<close> that refuses every buffer too short to hold
  the 22 bytes of an end-of-central-directory record and reads any other buffer as
  an archive without entries.
\<close>

definition shortReader :: "gostring \<Rightarrow> error + zip_File list" where
  "shortReader d = (if length d < 22 then Inl ZipError else Inr [])"

text \<open>
  A download that succeeds, and a reader that finds the given entries in what was
  downloaded.
\<close>

definition download :: "gostring \<Rightarrow> error + gostring" where
  "download url = Inr (ascii ''PK'')"

definition reads :: "zip_File list \<Rightarrow> gostring \<Rightarrow> error + zip_File list" where
  "reads r d = Inr r"

text \<open>The state before a run on an empty disk.\<close>

definition no_disk :: state where
  "no_disk = \<lparr>disk = Map.empty, open_streams = [], open_handles = [], deferred = []\<rparr>"

text \<open>Entries whose name the archive marks as UTF-8, with nothing wrong in their data.\<close>

definition file_entry :: "gostring \<Rightarrow> gostring \<Rightarrow> zip_File" where
  "file_entry n c =
     \<lparr>Name = n, NonUTF8 = False, IsDir = False, Mode = 420, OpenErr = None, Content = c,
      ReadErr = None\<rparr>"

definition dir_entry :: "gostring \<Rightarrow> zip_File" where
  "dir_entry n =
     \<lparr>Name = n, NonUTF8 = False, IsDir = True, Mode = 493, OpenErr = None, Content = [],
      ReadErr = None\<rparr>"

text \<open>The flags of a run into \<open>/out\<close> with no encoding named.\<close>

definition plain :: config where
  "plain =
     \<lparr>srcUrl = ascii ''http://h/a.zip'', nonUtf8EncName = [], outEncName = [],
      outPath = ascii ''/out''\<rparr>"



text \<open>
  An entry whose name is the single Windows-1251 byte of the numero sign U+2116,
  flagged as not UTF-8.
\<close>

definition numero_entry :: zip_File where
  "numero_entry = (file_entry [0xB9] (ascii ''two''))\<lparr>NonUTF8 := True\<rparr>"

text \<open>
  An archive in which a directory entry comes after a file entry of the same path.
\<close>

definition clash_archive :: "zip_File list" where
  "clash_archive =
     [file_entry (ascii ''x'') (ascii ''one''), dir_entry (ascii ''x/''),
      file_entry (ascii ''y'') (ascii ''two'')]"

text \<open>An archive whose second entry is the entry named by the numero sign.\<close>

definition numero_archive :: "zip_File list" where
  "numero_archive =
     [file_entry (ascii ''a'') (ascii ''one''), numero_entry,
      file_entry (ascii ''b'') (ascii ''three'')]"

text \<open>
  The archive of a directory and a file in it, the directory first; the other order
  is its reverse.
\<close>

definition sub_archive :: "zip_File list" where
  "sub_archive = [dir_entry (ascii ''sub/''), file_entry (ascii ''sub/a.txt'') (ascii ''hello'')]"

text \<open>The code points of the name \<open>file.txt\<close> in Cyrillic small letters.\<close>

definition cyrillic_runes :: "rune list" where
  "cyrillic_runes = [0x444, 0x430, 0x439, 0x43B, 0x2E, 0x74, 0x78, 0x74]"

section \<open>Evaluation\<close>

text \<open>The equations that compute paths, disk operations and runs on given inputs.\<close>

lemmas path_eval = Clean_def Dir_def Separator_def Dot_def Let_def ToLower_def RuneSelf_def

lemmas disk_eval = Stat_def Mkdir_def mkdir_last_def elem_start_def MkdirAll.simps OpenFile_def
  Write_def

lemmas run_eval = extract_entry_def resolve_fpath_def file_entry_def dir_entry_def no_disk_def
  Execute_def Run_def unzip_def Args_def getDecoder_def getEncoder_def getEncoding_def plain_def
  download_def reads_def

lemma decode_1251_low: "c < 0x80 \<Longrightarrow> decode windows1251 ! c = c"
  by (simp add: windows1251_def nth_append)

lemma decode_1251_high: "0x80 \<le> c \<Longrightarrow> decode windows1251 ! c = cp1251_high ! (c - 0x80)"
  by (simp add: windows1251_def nth_append)

lemma fields_1251:
  "asciiSuperset windows1251" "low windows1251 = 0x80" "replacement windows1251 = 0x1A"
  by (simp_all add: windows1251_def)

lemmas cp1251_eval = decode_1251_low decode_1251_high fields_1251 cp1251_high_def EncodeRune_def

lemmas utf8_eval = Map_runes_def unicode_ToLower_def utf8_def seq_len_def accept_lo_def
  accept_hi_def cont_def EncodeRune_def

section \<open>The identity transform\<close>

lemma getEncoding_empty: "getEncoding [] = Inr (Some EncodingNop)"
  by (simp add: getEncoding_def)

lemma Transform_Nop_fits: "Transform TransformNop (length X + k) X atEOF = (X, length X, None)"
  by (simp add: min_def)

lemma Transform_Nop_twice: "Transform TransformNop (length X * 2) X atEOF = (X, length X, None)"
  using Transform_Nop_fits [of X "length X" atEOF] by (simp add: mult_2_right)

lemma resolve_fname_Nop: "resolve_fname (Some TransformNop) f = Inr (Name f)"
  by (simp add: resolve_fname_def Let_def Transform_Nop_twice del: Transform.simps)

lemma encode_fpath_Nop: "encode_fpath (Some TransformNop) p = Inr p"
  by (simp add: encode_fpath_def Transform_Nop_twice del: Transform.simps)

text \<open>
  C4. For the empty encoding name both \<open>getDecoder\<close> and \<open>getEncoder\<close> succeed, and
  the transformer they return is the identity: given a destination at least as long
  as the input \<open>X\<close> it writes exactly \<open>X\<close>, consumes all of it and reports no error.
  So the program, which gives it twice the length, keeps every name and every path.
\<close>

theorem empty_name_is_identity:
  "getDecoder [] = Inr (Some TransformNop) \<and>
   getEncoder [] = Inr (Some TransformNop) \<and>
   Transform TransformNop (length X + k) X atEOF = (X, length X, None) \<and>
   resolve_fname (Some TransformNop) f = Inr (Name f) \<and>
   encode_fpath (Some TransformNop) p = Inr p"
  by (simp add: getDecoder_def getEncoder_def getEncoding_empty Transform_Nop_fits
      resolve_fname_Nop encode_fpath_Nop del: Transform.simps)

section \<open>A buffer that is not an archive\<close>

text \<open>
  C5. When the downloaded bytes are not an archive (\<^verbatim>\<open>zip.NewReader\<close> reports an
  error), the closure returns that error with no file name, the command ends in
  \<^verbatim>\<open>log.Fatal\<close> with it, and the state, the disk included, is what it was: no
  file has been written.
\<close>

theorem invalid_archive_writes_nothing:
  "fetch (srcUrl cfg) = Inr d \<Longrightarrow> NewReader d = Inl err \<Longrightarrow>
   unzip NewReader decoder encoder (outPath cfg) d s = (Returned [] (Some err), s) \<and>
   Run fetch NewReader cfg decoder encoder s = (Fatal err, s)"
  by (simp add: unzip_def Run_def)

theorem invalid_archive_writes_nothing_witness:
  "Run (\<lambda>u. Inr (ascii ''not a zip'')) shortReader
      \<lparr>srcUrl = ascii ''http://h/a.zip'', nonUtf8EncName = [], outEncName = [],
       outPath = ascii ''/out''\<rparr>
      (Some TransformNop) (Some TransformNop) no_disk
    = (Fatal ZipError, no_disk)"
  using invalid_archive_writes_nothing [of "\<lambda>u. Inr (ascii ''not a zip'')"
      "\<lparr>srcUrl = ascii ''http://h/a.zip'', nonUtf8EncName = [], outEncName = [],
        outPath = ascii ''/out''\<rparr>"
      "ascii ''not a zip''" shortReader ZipError "Some TransformNop" "Some TransformNop"
      no_disk]
  by (simp add: shortReader_def)

section \<open>Which names are decoded\<close>






section \<open>The resolved path\<close>


lemma Join_out_x: "Join [ascii ''/out'', ascii ''x''] = ascii ''/out/x''"
  by (simp add: path_eval)




section \<open>Streams and file handles\<close>

lemma extract_entry_handles:
  "open_handles (snd (extract_entry decoder encoder out i f filenames s)) = open_handles s"
  by (simp add: extract_entry_def Let_def split: option.splits sum.splits)

lemma extract_entry_streams:
  "open_streams (snd (extract_entry decoder encoder out i f filenames s)) =
     (if OpenErr f = None then i # open_streams s else open_streams s)"
  by (simp add: extract_entry_def Let_def split: option.splits sum.splits)

lemma extract_entry_deferred:
  "deferred (snd (extract_entry decoder encoder out i f filenames s)) =
     (if OpenErr f = None then i # deferred s else deferred s)"
  by (simp add: extract_entry_def Let_def split: option.splits sum.splits)

lemma extract_loop_streams:
  "\<exists>ds. deferred (snd (extract_loop decoder encoder out r i filenames s)) = ds @ deferred s \<and>
        open_streams (snd (extract_loop decoder encoder out r i filenames s)) = ds @ open_streams s"
proof (induction r arbitrary: i filenames s)
  case Nil
  show ?case by simp
next
  case (Cons f r)
  obtain st s' where e: "extract_entry decoder encoder out i f filenames s = (st, s')"
    by (cases "extract_entry decoder encoder out i f filenames s")
  have d: "deferred s' = (if OpenErr f = None then i # deferred s else deferred s)"
    using extract_entry_deferred [of decoder encoder out i f filenames s] e by simp
  have o: "open_streams s' = (if OpenErr f = None then i # open_streams s else open_streams s)"
    using extract_entry_streams [of decoder encoder out i f filenames s] e by simp
  have one: "\<exists>ds. deferred s' = ds @ deferred s \<and> open_streams s' = ds @ open_streams s"
  proof (cases "OpenErr f = None")
    case True
    with d o have "deferred s' = [i] @ deferred s \<and> open_streams s' = [i] @ open_streams s" by simp
    then show ?thesis by blast
  next
    case False
    with d o have "deferred s' = [] @ deferred s \<and> open_streams s' = [] @ open_streams s" by simp
    then show ?thesis by blast
  qed
  show ?case
  proof (cases st)
    case (Next fns)
    from Cons.IH [of "i + 1" fns s'] obtain ds where
      "deferred (snd (extract_loop decoder encoder out r (i + 1) fns s')) = ds @ deferred s'"
      "open_streams (snd (extract_loop decoder encoder out r (i + 1) fns s')) = ds @ open_streams s'"
      by blast
    moreover from one obtain ds' where "deferred s' = ds' @ deferred s" "open_streams s' = ds' @ open_streams s"
      by blast
    ultimately have "deferred (snd (extract_loop decoder encoder out r (i + 1) fns s')) = (ds @ ds') @ deferred s \<and>
       open_streams (snd (extract_loop decoder encoder out r (i + 1) fns s')) = (ds @ ds') @ open_streams s"
      by simp
    then show ?thesis using e Next by (simp del: append_assoc)
  next
    case (Return fns err)
    then show ?thesis using e one by simp
  next
    case (Panic err)
    then show ?thesis using e one by simp
  qed
qed

lemma extract_loop_handles:
  "open_handles (snd (extract_loop decoder encoder out r i filenames s)) = open_handles s"
proof (induction r arbitrary: i filenames s)
  case Nil
  show ?case by simp
next
  case (Cons f r)
  obtain st s' where e: "extract_entry decoder encoder out i f filenames s = (st, s')"
    by (cases "extract_entry decoder encoder out i f filenames s")
  have h: "open_handles s' = open_handles s"
    using extract_entry_handles [of decoder encoder out i f filenames s] e by simp
  show ?case using e h Cons.IH by (cases st) simp_all
qed

lemma close_all: "foldl (\<lambda>os i. remove1 i os) (ds @ os) ds = os"
  by (induction ds) simp_all

lemma unzip_streams:
  "open_streams (snd (unzip NewReader decoder encoder out d s)) = open_streams s"
proof (cases "NewReader d")
  case (Inl err)
  then show ?thesis by (simp add: unzip_def)
next
  case (Inr r)
  let ?s0 = "s\<lparr>deferred := []\<rparr>"
  obtain res s' where l: "extract_loop decoder encoder out r 0 [] ?s0 = (res, s')"
    by (cases "extract_loop decoder encoder out r 0 [] ?s0")
  from extract_loop_streams [of decoder encoder out r 0 "[]" ?s0] l
  obtain ds where "deferred s' = ds" "open_streams s' = ds @ open_streams s"
    by auto
  then have "open_streams (run_deferred s') = open_streams s"
    by (simp add: close_all)
  then show ?thesis using Inr l by (simp add: unzip_def)
qed

lemma unzip_handles:
  "open_handles (snd (unzip NewReader decoder encoder out d s)) = open_handles s"
proof (cases "NewReader d")
  case (Inl err)
  then show ?thesis by (simp add: unzip_def)
next
  case (Inr r)
  let ?s0 = "s\<lparr>deferred := []\<rparr>"
  obtain res s' where l: "extract_loop decoder encoder out r 0 [] ?s0 = (res, s')"
    by (cases "extract_loop decoder encoder out r 0 [] ?s0")
  from extract_loop_handles [of decoder encoder out r 0 "[]" ?s0] l
  have "open_handles s' = open_handles s" by simp
  then show ?thesis using Inr l by (simp add: unzip_def)
qed

text \<open>
  The claim C9 as stated fails for the archive streams: after the pass for the first
  entry of an archive, when the loop goes on to the next entry, the stream of the
  first entry is still open; its \<open>Close\<close> is only deferred.
\<close>

theorem stream_open_across_entries_counterexample:
  "extract_entry (Some TransformNop) (Some TransformNop) (ascii ''/out'') 0
      (file_entry (ascii ''x'') (ascii ''one'')) [] no_disk
   = (Next [ascii ''/out/x''],
      \<lparr>disk = [ascii ''/out'' \<mapsto> Directory, ascii ''/out/x'' \<mapsto> File (ascii ''one'') 420],
       open_streams = [0], open_handles = [], deferred = [0]\<rparr>)"
  by (simp add: path_eval disk_eval run_eval resolve_fname_Nop encode_fpath_Nop del: Transform.simps)

text \<open>
  C9, amended. Every output file opened in a pass through the loop body is closed
  in the same pass, however the pass ends (next entry, error return or panic): the
  open output files after the pass are those before it. The archive stream an entry
  opens stays open when the pass ends; the streams are closed together when the
  closure is left, by return, by error return or by panic, so that the open streams
  and the open output files after the closure are those before it.
\<close>

theorem handles_released:
  "open_handles (snd (extract_entry decoder encoder out i f filenames s)) = open_handles s \<and>
   open_streams (snd (extract_entry decoder encoder out i f filenames s)) =
     (if OpenErr f = None then i # open_streams s else open_streams s) \<and>
   open_streams (snd (unzip NewReader decoder encoder out d s)) = open_streams s \<and>
   open_handles (snd (unzip NewReader decoder encoder out d s)) = open_handles s"
  by (simp only: extract_entry_handles extract_entry_streams unzip_streams unzip_handles)

section \<open>Errors while writing\<close>

text \<open>
  C6, at an input where the code departs from it. In \<open>clash_archive\<close> the
  directory entry \<open>x/\<close> follows the file entry \<open>x\<close>: \<open>MkdirAll\<close> fails on
  \<open>/out/x\<close>, which is a file by then, but line 126 drops the error, so the run goes
  on to the entry \<open>y\<close>, writes it and ends as a success.
\<close>

theorem mkdir_error_ignored:
  "MkdirAll [ascii ''/out'' \<mapsto> Directory, ascii ''/out/x'' \<mapsto> File (ascii ''one'') 420]
      (ascii ''/out/x'') = Inl (ENOTDIR (ascii ''/out/x'')) \<and>
   fst (Execute download (reads clash_archive) plain no_disk) =
     Unzipped [ascii ''/out/x'', ascii ''/out/x'', ascii ''/out/y''] \<and>
   map (Stat (disk (snd (Execute download (reads clash_archive) plain no_disk))))
     [ascii ''/out/x'', ascii ''/out/y''] =
     [Some (File (ascii ''one'') 420), Some (File (ascii ''two'') 420)]"
  by (simp add: path_eval disk_eval run_eval clash_archive_def resolve_fname_Nop encode_fpath_Nop
      del: Transform.simps)

text \<open>
  The errors of a file entry end the run. When \<open>MkdirAll\<close> on the parent path,
  \<open>OpenFile\<close> or the copy of the content fails for a file entry, the closure
  returns that error with the paths resolved so far, and no later entry is
  processed; in the last case the bytes read before the error have been written.
\<close>

theorem file_errors_abort:
  "\<not> IsDir f \<and> OpenErr f = None \<and> resolve_fpath decoder encoder out f = Inr fpath \<longrightarrow>
     (MkdirAll (disk s) (Dir fpath) = Inl err \<longrightarrow>
        fst (extract_loop decoder encoder out (f # r) i filenames s) =
          Returned (filenames @ [fpath]) (Some err)) \<and>
     (MkdirAll (disk s) (Dir fpath) = Inr fs \<and> OpenFile fs fpath (Mode f) = Inl err \<longrightarrow>
        fst (extract_loop decoder encoder out (f # r) i filenames s) =
          Returned (filenames @ [fpath]) (Some err)) \<and>
     (MkdirAll (disk s) (Dir fpath) = Inr fs \<and> OpenFile fs fpath (Mode f) = Inr fs' \<and>
      ReadErr f = Some err \<longrightarrow>
        fst (extract_loop decoder encoder out (f # r) i filenames s) =
          Returned (filenames @ [fpath]) (Some err) \<and>
        disk (snd (extract_loop decoder encoder out (f # r) i filenames s)) =
          Write fs' fpath (Content f))"
  by (simp add: extract_entry_def Let_def)

theorem file_errors_abort_witness:
  "fst (extract_loop (Some TransformNop) (Some TransformNop) (ascii ''/out'')
     [file_entry (ascii ''x/y'') (ascii ''two''), file_entry (ascii ''z'') (ascii ''three'')] 1
     [ascii ''/out/x'']
     (no_disk\<lparr>disk := [ascii ''/out'' \<mapsto> Directory, ascii ''/out/x'' \<mapsto> File (ascii ''one'') 420]\<rparr>)) =
   Returned [ascii ''/out/x'', ascii ''/out/x/y''] (Some (ENOTDIR (ascii ''/out/x'')))"
proof -
  have r: "resolve_fpath (Some TransformNop) (Some TransformNop) (ascii ''/out'')
      (file_entry (ascii ''x/y'') (ascii ''two'')) = Inr (ascii ''/out/x/y'')"
    by (simp add: path_eval run_eval resolve_fname_Nop encode_fpath_Nop del: Transform.simps)
  have m: "MkdirAll [ascii ''/out'' \<mapsto> Directory, ascii ''/out/x'' \<mapsto> File (ascii ''one'') 420]
      (Dir (ascii ''/out/x/y'')) = Inl (ENOTDIR (ascii ''/out/x''))"
    by (simp add: path_eval disk_eval)
  from r m file_errors_abort [where f = "file_entry (ascii ''x/y'') (ascii ''two'')"
      and decoder = "Some TransformNop" and encoder = "Some TransformNop"
      and out = "ascii ''/out''" and fpath = "ascii ''/out/x/y''"
      and s = "no_disk\<lparr>disk := [ascii ''/out'' \<mapsto> Directory, ascii ''/out/x'' \<mapsto> File (ascii ''one'') 420]\<rparr>"
      and err = "ENOTDIR (ascii ''/out/x'')"
      and r = "[file_entry (ascii ''z'') (ascii ''three'')]" and i = 1
      and filenames = "[ascii ''/out/x'']"]
  show ?thesis by (simp add: file_entry_def no_disk_def)
qed

section \<open>The size of the transform buffers\<close>

text \<open>
  C7, at an input where the code departs from it. With input encoding \<open>1251\<close> the
  name that is the one byte B9 (the numero sign U+2116) needs three bytes of UTF-8,
  and the buffer of twice the name's length has two: the decoder reports
  \<open>ErrShortDst\<close> and the run panics at that entry. The entry before it has been
  written, the entry after it has not.
\<close>

theorem short_buffer_panics:
  "Args (plain\<lparr>nonUtf8EncName := ascii ''1251''\<rparr>) =
     Inr (Some (CharmapDecoder windows1251), Some TransformNop) \<and>
   Transform (CharmapDecoder windows1251) (length [0xB9 :: nat] * 2) [0xB9] False =
     ([], 0, Some ErrShortDst) \<and>
   Transform (CharmapDecoder windows1251) 3 [0xB9] False = (utf8 [0x2116], 1, None) \<and>
   fst (Execute download (reads numero_archive)
          (plain\<lparr>nonUtf8EncName := ascii ''1251''\<rparr>) no_disk) = Crash ErrShortDst \<and>
   map (Stat (disk (snd (Execute download (reads numero_archive)
          (plain\<lparr>nonUtf8EncName := ascii ''1251''\<rparr>) no_disk))))
     [ascii ''/out/a'', ascii ''/out/b''] = [Some (File (ascii ''one'') 420), None]"
  by (simp add: path_eval disk_eval run_eval numero_archive_def numero_entry_def resolve_fname_def
      encode_fpath_Nop cp1251_eval utf8_def del: Transform.simps(1))

text \<open>
  A failing transform is fatal. When the name or the path of an entry cannot be
  transformed, the loop panics at that entry with the transform's error: no later
  entry is processed and the disk stays as the earlier entries left it.
\<close>

theorem transform_failure_is_fatal:
  "OpenErr f = None \<and> resolve_fpath decoder encoder out f = Inl err \<longrightarrow>
     extract_loop decoder encoder out (f # r) i filenames s =
       (Panicked err, s\<lparr>open_streams := i # open_streams s, deferred := i # deferred s\<rparr>) \<and>
     fst (unzip (reads (f # r)) decoder encoder out d s) = Panicked err \<and>
     disk (snd (unzip (reads (f # r)) decoder encoder out d s)) = disk s"
  by (simp add: extract_entry_def unzip_def reads_def Let_def)

theorem transform_failure_is_fatal_witness:
  "extract_loop (Some (CharmapDecoder windows1251)) (Some TransformNop) (ascii ''/out'')
     [numero_entry, file_entry (ascii ''b'') (ascii ''three'')] 0 [] no_disk =
     (Panicked ErrShortDst, no_disk\<lparr>open_streams := [0], deferred := [0]\<rparr>)"
proof -
  have "resolve_fpath (Some (CharmapDecoder windows1251)) (Some TransformNop) (ascii ''/out'')
      numero_entry = Inl ErrShortDst"
    by (simp add: resolve_fpath_def resolve_fname_def numero_entry_def file_entry_def
        cp1251_eval RuneSelf_def)
  with transform_failure_is_fatal [of numero_entry "Some (CharmapDecoder windows1251)"
      "Some TransformNop" "ascii ''/out''" ErrShortDst
      "[file_entry (ascii ''b'') (ascii ''three'')]" 0 "[]" no_disk]
  show ?thesis by (simp add: numero_entry_def file_entry_def no_disk_def)
qed

section \<open>Encoding names\<close>




lemma variant_nonempty: "case_variant (k # key) name \<Longrightarrow> name \<noteq> []"
  by (auto simp: case_variant_def)






section \<open>Parent directories\<close>

lemma Dir_root: "Dir [Separator] = [Separator]" "Dir [Dot] = [Dot]"
  by (simp_all add: path_eval)

lemma Stat_upd:
  "Stat fs p = None \<or> Stat fs p = Some (File c m) \<Longrightarrow> Stat (fs(p \<mapsto> n)) q = (if q = p then Some n else Stat fs q)"
  by (auto simp: Stat_def split: if_splits)

lemma wf_disk_add:
  assumes w: "wf_disk fs" and none: "Stat fs p = None" and par: "Stat fs (Dir p) = Some Directory"
  shows "wf_disk (fs(p \<mapsto> n))"
  unfolding wf_disk_def
proof (intro allI impI)
  fix q k assume q: "Stat (fs(p \<mapsto> n)) q = Some k"
  have upd: "\<And>x. Stat (fs(p \<mapsto> n)) x = (if x = p then Some n else Stat fs x)"
    using Stat_upd none by blast
  have np: "Dir p \<noteq> p" using none par by auto
  show "Stat (fs(p \<mapsto> n)) (Dir q) = Some Directory"
  proof (cases "q = p")
    case True
    then show ?thesis using upd np par by simp
  next
    case False
    with q upd have "Stat fs q = Some k" by simp
    with w have d: "Stat fs (Dir q) = Some Directory" unfolding wf_disk_def by blast
    with none have "Dir q \<noteq> p" by auto
    with d upd show ?thesis by simp
  qed
qed

lemma wf_disk_file:
  assumes w: "wf_disk fs" and f: "Stat fs p = Some (File c m)"
  shows "wf_disk (fs(p \<mapsto> File c' m'))"
  unfolding wf_disk_def
proof (intro allI impI)
  fix q k assume q: "Stat (fs(p \<mapsto> File c' m')) q = Some k"
  have upd: "\<And>x. Stat (fs(p \<mapsto> File c' m')) x = (if x = p then Some (File c' m') else Stat fs x)"
    using Stat_upd f by blast
  from w f have par: "Stat fs (Dir p) = Some Directory" unfolding wf_disk_def by blast
  with f have np: "Dir p \<noteq> p" by auto
  show "Stat (fs(p \<mapsto> File c' m')) (Dir q) = Some Directory"
  proof (cases "q = p")
    case True
    then show ?thesis using upd np par by simp
  next
    case False
    with q upd have "Stat fs q = Some k" by simp
    with w have d: "Stat fs (Dir q) = Some Directory" unfolding wf_disk_def by blast
    with f have "Dir q \<noteq> p" by auto
    with d upd show ?thesis by simp
  qed
qed

lemma wf_Mkdir: "wf_disk fs \<Longrightarrow> Mkdir fs p = Inr fs' \<Longrightarrow> wf_disk fs'"
  by (auto simp: Mkdir_def wf_disk_add split: if_splits option.splits node.splits)

lemma wf_mkdir_last: "wf_disk fs \<Longrightarrow> mkdir_last fs p = Inr fs' \<Longrightarrow> wf_disk fs'"
  by (auto simp: mkdir_last_def wf_Mkdir split: sum.splits option.splits node.splits)

lemma wf_MkdirAll: "wf_disk fs \<Longrightarrow> MkdirAll fs p = Inr fs' \<Longrightarrow> wf_disk fs'"
proof (induction fs p arbitrary: fs' rule: MkdirAll.induct)
  case (1 fs path)
  show ?case
  proof (cases "Stat fs path")
    case None
    show ?thesis
    proof (cases "elem_start path > 1")
      case True
      with None "1.prems"(2) obtain fs1 where
        a: "MkdirAll fs (take (elem_start path - 1) path) = Inr fs1" and b: "mkdir_last fs1 path = Inr fs'"
        by (auto simp: MkdirAll.simps [of fs path] split: sum.splits)
      from "1.IH" [OF None True "1.prems"(1) a] have "wf_disk fs1" .
      then show ?thesis using b by (rule wf_mkdir_last)
    next
      case False
      with None "1.prems"(2) have "mkdir_last fs path = Inr fs'"
        by (simp add: MkdirAll.simps [of fs path])
      with "1.prems"(1) show ?thesis by (rule wf_mkdir_last)
    qed
  next
    case (Some n)
    with "1.prems" show ?thesis
      by (cases n) (simp_all add: MkdirAll.simps [of fs path])
  qed
qed

lemma MkdirAll_dir: "MkdirAll fs p = Inr fs' \<Longrightarrow> Stat fs' p = Some Directory"
  by (auto simp: MkdirAll.simps [of fs p] mkdir_last_def Mkdir_def Stat_def
      split: option.splits node.splits sum.splits if_splits)

lemma wf_OpenFile: "wf_disk fs \<Longrightarrow> OpenFile fs p m = Inr fs' \<Longrightarrow> wf_disk fs'"
  by (auto simp: OpenFile_def wf_disk_add wf_disk_file split: if_splits option.splits node.splits)

lemma OpenFile_file: "OpenFile fs p m = Inr fs' \<Longrightarrow> \<exists>m'. fs' p = Some (File [] m') \<and> Stat fs' p = Some (File [] m')"
  by (auto simp: OpenFile_def Stat_def  split: if_splits option.splits node.splits)

lemma OpenFile_others: "OpenFile fs p m = Inr fs' \<Longrightarrow> q \<noteq> p \<Longrightarrow> Stat fs' q = Stat fs q"
  by (auto simp: OpenFile_def Stat_def split: if_splits option.splits node.splits)

lemma wf_empty: "wf_disk Map.empty"
  by (auto simp: wf_disk_def Stat_def Dir_root split: if_splits)

lemma ancestors_dirs:
  assumes "wf_disk fs" and "Stat fs (Dir p) = Some Directory"
  shows "Stat fs ((Dir ^^ Suc k) p) = Some Directory"
proof (induction k)
  case 0
  from assms(2) show ?case by simp
next
  case (Suc k)
  with assms(1) show ?case unfolding wf_disk_def by (metis funpow.simps(2) o_apply)
qed

lemma Write_opened:
  assumes "Stat fs p = Some (File [] m)"
  shows "Stat (Write fs p c) p = Some (File c m)" and "wf_disk fs \<Longrightarrow> wf_disk (Write fs p c)"
proof -
  from assms have f: "fs p = Some (File [] m)" by (auto simp: Stat_def split: if_splits)
  then have w: "Write fs p c = fs(p \<mapsto> File c m)" by (simp add: Write_def)
  from assms show "Stat (Write fs p c) p = Some (File c m)"
    unfolding w using Stat_upd [of fs p "[]" m] by simp
  show "wf_disk fs \<Longrightarrow> wf_disk (Write fs p c)"
    unfolding w using assms by (simp add: wf_disk_file)
qed

lemma extract_file_entry:
  assumes "\<not> IsDir f" and "OpenErr f = None"
    and "resolve_fpath decoder encoder out f = Inr fpath"
    and "MkdirAll (disk s) (Dir fpath) = Inr fs"
    and "OpenFile fs fpath (Mode f) = Inr fs'"
  shows "disk (snd (extract_entry decoder encoder out i f filenames s)) = Write fs' fpath (Content f)"
  using assms by (simp add: extract_entry_def Let_def split: option.splits)

lemma extract_file_entry_fails:
  assumes "\<not> IsDir f" and "OpenErr f = None"
    and "resolve_fpath decoder encoder out f = Inr fpath"
  shows "MkdirAll (disk s) (Dir fpath) = Inl err \<Longrightarrow>
           fst (extract_entry decoder encoder out i f filenames s) = Return (filenames @ [fpath]) err"
    and "MkdirAll (disk s) (Dir fpath) = Inr fs \<Longrightarrow> OpenFile fs fpath (Mode f) = Inl err \<Longrightarrow>
           fst (extract_entry decoder encoder out i f filenames s) = Return (filenames @ [fpath]) err"
  using assms by (simp_all add: extract_entry_def Let_def)

lemma wf_extract_entry:
  assumes w: "wf_disk (disk s)"
  shows "wf_disk (disk (snd (extract_entry decoder encoder out i f filenames s)))"
proof (cases "OpenErr f")
  case (Some err)
  with w show ?thesis by (simp add: extract_entry_def)
next
  case None
  show ?thesis
  proof (cases "resolve_fpath decoder encoder out f")
    case (Inl err)
    with w None show ?thesis by (simp add: extract_entry_def)
  next
    case (Inr fpath)
    show ?thesis
    proof (cases "IsDir f")
      case True
      with w None Inr show ?thesis
        by (auto simp: extract_entry_def Let_def wf_MkdirAll split: sum.splits)
    next
      case False
      show ?thesis
      proof (cases "MkdirAll (disk s) (Dir fpath)")
        case (Inl err)
        with w None Inr False show ?thesis by (simp add: extract_entry_def)
      next
        case m: (Inr fs)
        from w m have wfs: "wf_disk fs" by (rule wf_MkdirAll)
        show ?thesis
        proof (cases "OpenFile fs fpath (Mode f)")
          case (Inl err)
          with wfs None Inr False m show ?thesis by (simp add: extract_entry_def)
        next
          case o: (Inr fs')
          from wfs o have "wf_disk fs'" by (rule wf_OpenFile)
          moreover from o obtain m' where "Stat fs' fpath = Some (File [] m')"
            using OpenFile_file by blast
          ultimately have "wf_disk (Write fs' fpath (Content f))"
            using Write_opened(2) by blast
          with False None Inr m o show ?thesis by (simp add: extract_file_entry)
        qed
      qed
    qed
  qed
qed

text \<open>
  C8. For a file entry with resolved path \<open>fpath\<close>, on a well-formed disk: the
  program first runs \<open>MkdirAll\<close> on the parent path; if that fails the pass returns
  the error and the file is never opened; if it succeeds, every ancestor path of
  \<open>fpath\<close> is a directory on the disk on which the file is then opened, whatever
  the archive listed before, and when the open succeeds too, the ancestors are
  directories and \<open>fpath\<close> is a file holding exactly the entry's content on the disk
  the pass leaves. Every pass leaves a well-formed disk well formed, so this holds
  at each entry of a run. Extracting the directory entry \<open>sub/\<close> and the file entry
  \<open>sub/a.txt\<close> into \<open>/out\<close>, in this order or in the other, leaves \<open>/out/sub\<close> a
  directory and \<open>/out/sub/a.txt\<close> a file with the entry's content.
\<close>

theorem parents_made_before_open:
  "(wf_disk (disk s) \<and> \<not> IsDir f \<and> OpenErr f = None \<and>
    resolve_fpath decoder encoder out f = Inr fpath \<longrightarrow>
      (case MkdirAll (disk s) (Dir fpath) of
         Inl err \<Rightarrow>
           fst (extract_entry decoder encoder out i f filenames s) =
             Return (filenames @ [fpath]) err
       | Inr fs \<Rightarrow>
           (\<forall>k. Stat fs ((Dir ^^ Suc k) fpath) = Some Directory) \<and>
           (case OpenFile fs fpath (Mode f) of
              Inl err \<Rightarrow>
                fst (extract_entry decoder encoder out i f filenames s) =
                  Return (filenames @ [fpath]) err
            | Inr fs' \<Rightarrow>
                (\<forall>k. Stat (disk (snd (extract_entry decoder encoder out i f filenames s)))
                       ((Dir ^^ Suc k) fpath) = Some Directory) \<and>
                (\<exists>m. Stat (disk (snd (extract_entry decoder encoder out i f filenames s)))
                       fpath = Some (File (Content f) m))))) \<and>
   (wf_disk (disk s) \<longrightarrow>
      wf_disk (disk (snd (extract_entry decoder encoder out i f filenames s)))) \<and>
   map (Stat (disk (snd (Execute download (reads sub_archive) plain no_disk))))
     [ascii ''/out/sub'', ascii ''/out/sub/a.txt''] =
     [Some Directory, Some (File (ascii ''hello'') 420)] \<and>
   map (Stat (disk (snd (Execute download (reads (rev sub_archive)) plain no_disk))))
     [ascii ''/out/sub'', ascii ''/out/sub/a.txt''] =
     [Some Directory, Some (File (ascii ''hello'') 420)]"
proof (intro conjI impI)
  assume a: "wf_disk (disk s) \<and> \<not> IsDir f \<and> OpenErr f = None \<and>
    resolve_fpath decoder encoder out f = Inr fpath"
  let ?e = "extract_entry decoder encoder out i f filenames s"
  show "case MkdirAll (disk s) (Dir fpath) of
         Inl err \<Rightarrow> fst ?e = Return (filenames @ [fpath]) err
       | Inr fs \<Rightarrow>
           (\<forall>k. Stat fs ((Dir ^^ Suc k) fpath) = Some Directory) \<and>
           (case OpenFile fs fpath (Mode f) of
              Inl err \<Rightarrow> fst ?e = Return (filenames @ [fpath]) err
            | Inr fs' \<Rightarrow>
                (\<forall>k. Stat (disk (snd ?e)) ((Dir ^^ Suc k) fpath) = Some Directory) \<and>
                (\<exists>m. Stat (disk (snd ?e)) fpath = Some (File (Content f) m)))"
  proof (cases "MkdirAll (disk s) (Dir fpath)")
    case (Inl err)
    with a show ?thesis by (simp add: extract_file_entry_fails(1))
  next
    case (Inr fs)
    from a Inr have wfs: "wf_disk fs" using wf_MkdirAll by blast
    from Inr have "Stat fs (Dir fpath) = Some Directory" by (rule MkdirAll_dir)
    with wfs have anc: "\<forall>k. Stat fs ((Dir ^^ Suc k) fpath) = Some Directory"
      using ancestors_dirs by blast
    have "case OpenFile fs fpath (Mode f) of
              Inl err \<Rightarrow> fst ?e = Return (filenames @ [fpath]) err
            | Inr fs' \<Rightarrow>
                (\<forall>k. Stat (disk (snd ?e)) ((Dir ^^ Suc k) fpath) = Some Directory) \<and>
                (\<exists>m. Stat (disk (snd ?e)) fpath = Some (File (Content f) m))"
    proof (cases "OpenFile fs fpath (Mode f)")
      case (Inl err)
      with a Inr show ?thesis by (simp add: extract_file_entry_fails(2))
    next
      case o: (Inr fs')
      from a Inr o have d: "disk (snd ?e) = Write fs' fpath (Content f)"
        by (simp add: extract_file_entry)
      from wfs o have wfs': "wf_disk fs'" by (rule wf_OpenFile)
      from o obtain m where m: "Stat fs' fpath = Some (File [] m)"
        using OpenFile_file by blast
      from Write_opened [OF m] wfs' have
        w: "Stat (disk (snd ?e)) fpath = Some (File (Content f) m)" and wd: "wf_disk (disk (snd ?e))"
        unfolding d by simp_all
      from wd w have "Stat (disk (snd ?e)) (Dir fpath) = Some Directory"
        unfolding wf_disk_def by blast
      with wd have "\<forall>k. Stat (disk (snd ?e)) ((Dir ^^ Suc k) fpath) = Some Directory"
        using ancestors_dirs by blast
      with w o show ?thesis by auto
    qed
    with anc Inr show ?thesis by simp
  qed
next
  assume "wf_disk (disk s)"
  then show "wf_disk (disk (snd (extract_entry decoder encoder out i f filenames s)))"
    by (rule wf_extract_entry)
next
  show "map (Stat (disk (snd (Execute download (reads sub_archive) plain no_disk))))
     [ascii ''/out/sub'', ascii ''/out/sub/a.txt''] =
     [Some Directory, Some (File (ascii ''hello'') 420)]"
    by (simp add: path_eval disk_eval run_eval sub_archive_def resolve_fname_Nop encode_fpath_Nop
        del: Transform.simps)
next
  show "map (Stat (disk (snd (Execute download (reads (rev sub_archive)) plain no_disk))))
     [ascii ''/out/sub'', ascii ''/out/sub/a.txt''] =
     [Some Directory, Some (File (ascii ''hello'') 420)]"
    by (simp add: path_eval disk_eval run_eval sub_archive_def resolve_fname_Nop encode_fpath_Nop
        del: Transform.simps)
qed

theorem parents_made_before_open_witness:
  "wf_disk (disk no_disk) \<and>
   MkdirAll (disk no_disk) (Dir (ascii ''/out/sub/a.txt'')) =
     Inr [ascii ''/out'' \<mapsto> Directory, ascii ''/out/sub'' \<mapsto> Directory] \<and>
   Stat (disk (snd (extract_entry (Some TransformNop) (Some TransformNop) (ascii ''/out'') 0
       (file_entry (ascii ''sub/a.txt'') (ascii ''hello'')) [] no_disk)))
     ((Dir ^^ 2) (ascii ''/out/sub/a.txt'')) = Some Directory"
proof -
  have w: "wf_disk (disk no_disk)" by (simp add: no_disk_def wf_empty)
  have r: "resolve_fpath (Some TransformNop) (Some TransformNop) (ascii ''/out'')
      (file_entry (ascii ''sub/a.txt'') (ascii ''hello'')) = Inr (ascii ''/out/sub/a.txt'')"
    by (simp add: path_eval run_eval resolve_fname_Nop encode_fpath_Nop del: Transform.simps)
  have m: "MkdirAll (disk no_disk) (Dir (ascii ''/out/sub/a.txt'')) =
     Inr [ascii ''/out'' \<mapsto> Directory, ascii ''/out/sub'' \<mapsto> Directory]"
    by (simp add: path_eval disk_eval no_disk_def)
  have o: "OpenFile [ascii ''/out'' \<mapsto> Directory, ascii ''/out/sub'' \<mapsto> Directory]
      (ascii ''/out/sub/a.txt'') 420 =
     Inr [ascii ''/out'' \<mapsto> Directory, ascii ''/out/sub'' \<mapsto> Directory,
          ascii ''/out/sub/a.txt'' \<mapsto> File [] 420]"
    by (simp add: path_eval disk_eval)
  from parents_made_before_open [where s = no_disk
      and f = "file_entry (ascii ''sub/a.txt'') (ascii ''hello'')"
      and decoder = "Some TransformNop" and encoder = "Some TransformNop"
      and out = "ascii ''/out''" and fpath = "ascii ''/out/sub/a.txt''" and i = 0
      and filenames = "[]"] w r m o
  have "Stat (disk (snd (extract_entry (Some TransformNop) (Some TransformNop) (ascii ''/out'') 0
       (file_entry (ascii ''sub/a.txt'') (ascii ''hello'')) [] no_disk)))
     ((Dir ^^ Suc 1) (ascii ''/out/sub/a.txt'')) = Some Directory"
    by (simp add: file_entry_def del: funpow.simps)
  with w m show ?thesis by (simp add: numeral_2_eq_2 del: funpow.simps)
qed

section \<open>UTF-8 and the code pages\<close>

lemma rune_digits:
  fixes r :: nat
  shows "r = (r div 4096) * 4096 + ((r div 64) mod 64) * 64 + r mod 64"
proof -
  have "r div 64 = (r div 64 div 64) * 64 + (r div 64) mod 64" by simp
  moreover have "r div 64 div 64 = r div 4096" by (simp add: div_mult2_eq)
  moreover have "r = (r div 64) * 64 + r mod 64" by simp
  ultimately show ?thesis by linarith
qed

lemma lead_mod:
  fixes a :: nat
  shows "a < 32 \<Longrightarrow> (192 + a) mod 32 = a"
    and "a < 16 \<Longrightarrow> (224 + a) mod 16 = a"
    and "a < 64 \<Longrightarrow> (128 + a) mod 64 = a"
proof -
  have "(6 * 32 + a) mod 32 = a mod 32" by (rule mod_mult_self3)
  then show "a < 32 \<Longrightarrow> (192 + a) mod 32 = a" by simp
  have "(14 * 16 + a) mod 16 = a mod 16" by (rule mod_mult_self3)
  then show "a < 16 \<Longrightarrow> (224 + a) mod 16 = a" by simp
  have "(2 * 64 + a) mod 64 = a mod 64" by (rule mod_mult_self3)
  then show "a < 64 \<Longrightarrow> (128 + a) mod 64 = a" by simp
qed

lemma DecodeRune_two:
  assumes "2 \<le> a" "a < 32" "c < 64"
  shows "DecodeRune ([0xC0 + a, 0x80 + c] @ rest) = (a * 64 + c, 2)"
  using assms by (simp add: seq_len_def accept_lo_def accept_hi_def lead_mod)

lemma DecodeRune_three:
  assumes "a \<le> 13" "b < 64" "c < 64" "a = 0 \<Longrightarrow> 32 \<le> b" "a = 13 \<Longrightarrow> b \<le> 31"
  shows "DecodeRune ([0xE0 + a, 0x80 + b, 0x80 + c] @ rest) = (a * 4096 + b * 64 + c, 3)"
proof -
  have len: "seq_len (0xE0 + a) = 3" using assms(1) by (simp add: seq_len_def)
  have p0: "(0xE0 + a) mod 16 = a" using assms(1) by (simp add: lead_mod)
  have ok: "\<not> (0x80 + b < accept_lo (0xE0 + a) \<or> accept_hi (0xE0 + a) < 0x80 + b)"
    using assms by (auto simp: accept_lo_def accept_hi_def)
  have "DecodeRune ((0xE0 + a) # (0x80 + b) # (0x80 + c) # rest) = (a * 4096 + b * 64 + c, 3)"
    using assms(2,3) ok
    by (simp only: DecodeRune.simps len p0 Let_def) (simp add: cont_def lead_mod)
  then show ?thesis by simp
qed

lemma DecodeRune_EncodeRune:
  assumes "r < 0xD800"
  shows "DecodeRune (EncodeRune r @ rest) = (r, length (EncodeRune r))"
proof -
  consider "r < 0x80" | "0x80 \<le> r" "r < 0x800" | "0x800 \<le> r" "r < 0xD800"
    using assms by linarith
  then show ?thesis
  proof cases
    case 1
    then show ?thesis by (simp add: EncodeRune_def)
  next
    case 2
    define a where "a = r div 64"
    define c where "c = r mod 64"
    have r: "r = a * 64 + c" and c: "c < 64" by (simp_all add: a_def c_def)
    with 2 have a: "2 \<le> a" "a < 32" by linarith+
    have e: "EncodeRune r = [0xC0 + a, 0x80 + c]"
      using 2 by (simp add: EncodeRune_def a_def c_def)
    show ?thesis unfolding e using DecodeRune_two [OF a c, of rest] r by simp
  next
    case 3
    define a where "a = r div 4096"
    define b where "b = (r div 64) mod 64"
    define c where "c = r mod 64"
    have r: "r = a * 4096 + b * 64 + c" unfolding a_def b_def c_def by (rule rune_digits)
    have b: "b < 64" and c: "c < 64" by (simp_all add: b_def c_def)
    from 3 r b c have a: "a \<le> 13" by linarith
    from 3 r b c have lo: "a = 0 \<Longrightarrow> 32 \<le> b" by linarith
    from 3 r b c have hi: "a = 13 \<Longrightarrow> b \<le> 31" by linarith
    have e: "EncodeRune r = [0xE0 + a, 0x80 + b, 0x80 + c]"
      using 3 by (simp add: EncodeRune_def a_def b_def c_def)
    show ?thesis unfolding e using DecodeRune_three [OF a b c lo hi, of rest] r by simp
  qed
qed

lemma high_tables:
  "length cp866_high = 0x80" "list_all (\<lambda>r. r < 0xD800) cp866_high"
  "length cp1251_high = 0x80" "list_all (\<lambda>r. r < 0xD800) cp1251_high"
  by (simp_all add: cp866_high_def cp1251_high_def)

lemma low_table: "list_all (\<lambda>r. r < 0xD800) [0..<0x80]"
  by (simp add: list_all_iff del: upt_rec_numeral)

lemma ascii_table_866: "ascii_table codePage866"
  by (simp add: ascii_table_def codePage866_def high_tables low_table del: upt_rec_numeral)

lemma ascii_table_1251: "ascii_table windows1251"
  by (simp add: ascii_table_def windows1251_def high_tables low_table del: upt_rec_numeral)

lemma ascii_table_low: "ascii_table m \<Longrightarrow> i < 0x80 \<Longrightarrow> decode m ! i = i"
proof -
  assume a: "ascii_table m" and i: "i < 0x80"
  then have "take 0x80 (decode m) ! i = [0..<0x80] ! i" by (simp add: ascii_table_def)
  with i show ?thesis by (simp del: upt_rec_numeral)
qed

lemma ascii_table_valid: "ascii_table m \<Longrightarrow> i < 0x100 \<Longrightarrow> decode m ! i < 0xD800"
  by (simp add: ascii_table_def list_all_length)

lemma find_in: "x \<in> set xs \<Longrightarrow> P x \<Longrightarrow> \<exists>y. find P xs = Some y \<and> P y \<and> y \<in> set xs"
  by (induction xs) auto

lemma encode_lookup_found:
  assumes t: "ascii_table m" and r: "r \<in> set (decode m)" and hi: "0x80 \<le> r"
  shows "\<exists>b. encode_lookup m r = Some b \<and> 0x80 \<le> b \<and> b < 0x100 \<and> decode m ! b = r"
proof -
  from r obtain i where i: "i < length (decode m)" "decode m ! i = r"
    by (auto simp: in_set_conv_nth)
  from t i have i256: "i < 0x100" by (simp add: ascii_table_def)
  have "0x80 \<le> i"
  proof (rule ccontr)
    assume "\<not> 0x80 \<le> i"
    then have "i < 0x80" by simp
    with t have "decode m ! i = i" by (simp add: ascii_table_low)
    with i hi \<open>i < 0x80\<close> show False by simp
  qed
  with i256 have "i \<in> set [low m..<0x100]"
    using t by (simp only: set_upt atLeastLessThan_iff ascii_table_def)
  from find_in [of i "[low m..<0x100]" "\<lambda>b. decode m ! b = r", OF this i(2)]
  obtain b where b: "find (\<lambda>b. decode m ! b = r) [low m..<0x100] = Some b"
    "decode m ! b = r" "b \<in> set [low m..<0x100]"
    by blast
  from b(3) t have "0x80 \<le> b \<and> b < 0x100"
    by (simp only: set_upt atLeastLessThan_iff ascii_table_def)
  with b(1,2) show ?thesis by (simp only: encode_lookup_def) simp
qed

lemma EncodeRune_multi:
  assumes "0x80 \<le> r" "r < 0xD800"
  shows "\<exists>c cs. EncodeRune r = c # cs \<and> 0x80 \<le> c \<and> cs \<noteq> []"
  using assms by (auto simp: EncodeRune_def)

lemma encoder_loop_utf8:
  assumes t: "ascii_table m"
  shows "representable m rs \<Longrightarrow> length out + length rs \<le> cap \<Longrightarrow>
     \<exists>bs. encoder_loop m cap atEOF (utf8 rs) out n = (out @ bs, n + length (utf8 rs), None) \<and>
          list_all (\<lambda>b. b < 0x100) bs \<and> map (\<lambda>b. decode m ! b) bs = rs"
proof (induction rs arbitrary: out n)
  case Nil
  show ?case by (simp add: utf8_def)
next
  case (Cons r rs)
  from Cons.prems have rep: "representable m rs" and rin: "r \<in> set (decode m)"
    and room: "length out < cap" "length (out @ [x]) + length rs \<le> cap" for x
    by (simp_all add: representable_def)
  from t rin have valid: "r < 0xD800"
    by (auto simp: ascii_table_def list_all_iff)
  have u: "utf8 (r # rs) = EncodeRune r @ utf8 rs" by (simp add: utf8_def)
  from t have as: "asciiSuperset m" by (simp add: ascii_table_def)
  show ?case
  proof (cases "r < 0x80")
    case True
    from Cons.IH [OF rep room(2), of r "n + 1"] obtain bs where
      bs: "encoder_loop m cap atEOF (utf8 rs) (out @ [r]) (n + 1) =
             ((out @ [r]) @ bs, n + 1 + length (utf8 rs), None)"
        "list_all (\<lambda>b. b < 0x100) bs" "map (\<lambda>b. decode m ! b) bs = rs"
      by blast
    from True have e: "EncodeRune r = [r]" by (simp add: EncodeRune_def)
    have "encoder_loop m cap atEOF (utf8 (r # rs)) out n =
        (out @ (r # bs), n + length (utf8 (r # rs)), None)"
      unfolding u e using True as room(1) bs(1) by (simp add: RuneSelf_def)
    moreover have "list_all (\<lambda>b. b < 0x100) (r # bs)" using True bs(2) by simp
    moreover have "map (\<lambda>b. decode m ! b) (r # bs) = r # rs"
      using bs(3) ascii_table_low [OF t True] by simp
    ultimately show ?thesis by (intro exI [of _ "r # bs"] conjI)
  next
    case False
    then have hi: "0x80 \<le> r" by simp
    from EncodeRune_multi [OF hi valid] obtain c cs where
      e: "EncodeRune r = c # cs" and c: "0x80 \<le> c" and cs: "cs \<noteq> []" by blast
    from encode_lookup_found [OF t rin hi] obtain b where
      b: "encode_lookup m r = Some b" "b < 0x100" "decode m ! b = r" by blast
    from Cons.IH [OF rep room(2), of b "n + length (EncodeRune r)"] obtain bs where
      bs: "encoder_loop m cap atEOF (utf8 rs) (out @ [b]) (n + length (EncodeRune r)) =
             ((out @ [b]) @ bs, n + length (EncodeRune r) + length (utf8 rs), None)"
        "list_all (\<lambda>b. b < 0x100) bs" "map (\<lambda>b. decode m ! b) bs = rs"
      by blast
    have d: "DecodeRune (c # cs @ utf8 rs) = (r, Suc (length cs))"
      using DecodeRune_EncodeRune [OF valid, of "utf8 rs"] e by simp
    have "encoder_loop m cap atEOF (c # cs @ utf8 rs) out n =
        (out @ (b # bs), n + length (utf8 (r # rs)), None)"
      using c cs room(1) d b(1) bs(1) e u
      by (simp add: RuneSelf_def del: DecodeRune.simps)
    then have "encoder_loop m cap atEOF (utf8 (r # rs)) out n =
        (out @ (b # bs), n + length (utf8 (r # rs)), None)"
      using u e by simp
    moreover have "list_all (\<lambda>b. b < 0x100) (b # bs)" using b(2) bs(2) by simp
    moreover have "map (\<lambda>b. decode m ! b) (b # bs) = r # rs" using b(3) bs(3) by simp
    ultimately show ?thesis by (intro exI [of _ "b # bs"] conjI)
  qed
qed

lemma utf8_Cons: "utf8 (r # rs) = EncodeRune r @ utf8 rs"
  by (simp add: utf8_def)

lemma decoder_loop_table:
  assumes t: "ascii_table m"
  shows "list_all (\<lambda>b. b < 0x100) bs \<Longrightarrow>
     length out + length (utf8 (map (\<lambda>b. decode m ! b) bs)) \<le> cap \<Longrightarrow>
     decoder_loop m cap bs out n = (out @ utf8 (map (\<lambda>b. decode m ! b) bs), n + length bs, None)"
proof (induction bs arbitrary: out n)
  case Nil
  show ?case by (simp add: utf8_def)
next
  case (Cons b bs)
  from t have as: "asciiSuperset m" by (simp add: ascii_table_def)
  note u = utf8_Cons [of "decode m ! b" "map (\<lambda>b. decode m ! b) bs"]
  from Cons.prems have small: "list_all (\<lambda>b. b < 0x100) bs"
    and room: "length (out @ EncodeRune (decode m ! b)) + length (utf8 (map (\<lambda>b. decode m ! b) bs)) \<le> cap"
    by (simp_all add: utf8_def)
  note ih = Cons.IH [OF small room, of "n + 1"]
  show ?case
  proof (cases "b < 0x80")
    case True
    then have e: "EncodeRune (decode m ! b) = [b]"
      using ascii_table_low [OF t True] by (simp add: EncodeRune_def)
    from room have "length out < cap" by (simp add: e)
    with True as ih show ?thesis by (simp add: RuneSelf_def u e)
  next
    case False
    from room have "\<not> cap < length out + length (EncodeRune (decode m ! b))" by simp
    with False ih show ?thesis by (simp add: RuneSelf_def u Let_def)
  qed
qed

text \<open>
  C10. For code page 866 and for Windows-1251: a Unicode string all of whose code
  points are in the code page, written as UTF-8, is encoded without error by the
  page's encoder, one byte to the code point, whenever the destination has room for
  those bytes, and the page's decoder, given room for the UTF-8 form, turns these
  bytes back into exactly the UTF-8 string it started from, without error.
\<close>

theorem code_page_round_trip:
  "(m = codePage866 \<or> m = windows1251) \<and> representable m rs \<longrightarrow>
     (\<exists>bs. Transform (CharmapEncoder m) (length rs + k) (utf8 rs) atEOF =
             (bs, length (utf8 rs), None) \<and>
           length bs = length rs \<and>
           Transform (CharmapDecoder m) (length (utf8 rs) + k') bs atEOF' =
             (utf8 rs, length bs, None))"
proof
  assume a: "(m = codePage866 \<or> m = windows1251) \<and> representable m rs"
  then have t: "ascii_table m" using ascii_table_866 ascii_table_1251 by blast
  from a have "representable m rs" by simp
  from encoder_loop_utf8 [OF t this, of "[]" "length rs + k" atEOF 0] obtain bs where
    bs: "encoder_loop m (length rs + k) atEOF (utf8 rs) [] 0 = (bs, length (utf8 rs), None)"
      "list_all (\<lambda>b. b < 0x100) bs" "map (\<lambda>b. decode m ! b) bs = rs"
    by auto
  from bs(3) have len: "length bs = length rs" by (metis length_map)
  from decoder_loop_table [OF t bs(2), of "[]" "length (utf8 rs) + k'" 0] bs(3)
  have "decoder_loop m (length (utf8 rs) + k') bs [] 0 = (utf8 rs, length bs, None)"
    by simp
  with bs(1) len show "\<exists>bs. Transform (CharmapEncoder m) (length rs + k) (utf8 rs) atEOF =
             (bs, length (utf8 rs), None) \<and>
           length bs = length rs \<and>
           Transform (CharmapDecoder m) (length (utf8 rs) + k') bs atEOF' =
             (utf8 rs, length bs, None)"
    by simp
qed

theorem code_page_round_trip_witness:
  "representable windows1251 cyrillic_runes \<and>
   Transform (CharmapEncoder windows1251) 8 (utf8 cyrillic_runes) False =
     ([0xF4, 0xE0, 0xE9, 0xEB, 0x2E, 0x74, 0x78, 0x74], 12, None) \<and>
   Transform (CharmapDecoder windows1251) 12 [0xF4, 0xE0, 0xE9, 0xEB, 0x2E, 0x74, 0x78, 0x74]
     False = (utf8 cyrillic_runes, 8, None)"
proof -
  have r: "representable windows1251 cyrillic_runes"
    by (simp add: representable_def cyrillic_runes_def windows1251_def cp1251_high_def
        del: upt_rec_numeral)
  have e: "Transform (CharmapEncoder windows1251) 8 (utf8 cyrillic_runes) False =
     ([0xF4, 0xE0, 0xE9, 0xEB, 0x2E, 0x74, 0x78, 0x74], 12, None)"
    by (simp add: cyrillic_runes_def utf8_eval cp1251_eval encode_lookup_def RuneSelf_def)
  have l: "length cyrillic_runes + 0 = 8" "length (utf8 cyrillic_runes) + 0 = 12"
    by (simp_all add: cyrillic_runes_def utf8_def EncodeRune_def)
  from r code_page_round_trip [of windows1251 cyrillic_runes 0 False 0 False]
  obtain bs where
    enc: "Transform (CharmapEncoder windows1251) (length cyrillic_runes + 0)
            (utf8 cyrillic_runes) False = (bs, length (utf8 cyrillic_runes), None)" and
    dec: "Transform (CharmapDecoder windows1251) (length (utf8 cyrillic_runes) + 0) bs False =
            (utf8 cyrillic_runes, length bs, None)"
    by blast
  from enc e have "bs = [0xF4, 0xE0, 0xE9, 0xEB, 0x2E, 0x74, 0x78, 0x74]"
    unfolding l by (simp del: Transform.simps)
  with dec have "Transform (CharmapDecoder windows1251) 12
      [0xF4, 0xE0, 0xE9, 0xEB, 0x2E, 0x74, 0x78, 0x74] False = (utf8 cyrillic_runes, 8, None)"
    unfolding l by (simp del: Transform.simps)
  with r e show ?thesis by (simp del: Transform.simps)
qed

end
